theory Spec2Isabelle
  imports Complex_Main
begin

section \<open>Counterfactual engine of Chapter 2\<close>

text \<open>
  The notebook \<^verbatim>\<open>Notebooks/Chapter_02.ipynb\<close> defines the class
  \<^verbatim>\<open>CounterFactualSCM\<close> with three methods:
  \<^verbatim>\<open>
  def abduct(self, t, y):
      return (t + y - 1) / (2*t - 1)
  def modify(self, t):
      return lambda u: t * u + (t - 1) * (u - 1)
  def predict(self, u, t):
      return self.modify(t)(u)
  \<close>
  The arguments are Python's built-in numbers. An \<^verbatim>\<open>int\<close> is an unbounded
  integer with exact arithmetic. A \<^verbatim>\<open>float\<close> is an IEEE 754 binary64 value: a
  finite double (given by the real number it stands for), plus or minus infinity, or
  NaN. The sign of zero is not tracked: \<open>-0.0\<close> and \<open>0.0\<close> compare equal, and
  dividing by either raises.
\<close>

datatype error = ZeroDivisionError | ValueError | OverflowError | NameError

datatype double = Finite real | PosInf | NegInf | NaN

datatype pynum = PyInt int | PyFloat double

subsection \<open>Rounding to a double\<close>

text \<open>
  The result of a float operation is the exact result rounded to the nearest double,
  ties going to the double with an even significand. A double has 53 significant
  bits; for \<open>x\<close> with \<open>2^e \<le> |x| < 2^(e+1)\<close> the doubles near \<open>x\<close> are the
  multiples of \<open>2^(e-52)\<close>, and below \<open>2^(-1022)\<close> (the subnormal range)
  the multiples of \<open>2^(-1074)\<close>. A value of magnitude \<open>2^1024 - 2^970\<close> or
  more, halfway between the largest double and \<open>2^1024\<close>, rounds to infinity.
\<close>

definition round_half_even :: "real \<Rightarrow> int" where
  "round_half_even m =
     (let f = \<lfloor>m\<rfloor>; d = m - of_int f
      in if d < 1 / 2 then f else if d > 1 / 2 then f + 1
         else if even f then f else f + 1)"

definition ulp_exponent :: "real \<Rightarrow> int" where
  "ulp_exponent x = max \<lfloor>log 2 \<bar>x\<bar>\<rfloor> (- 1022) - 52"

definition to_double :: "real \<Rightarrow> double" where
  "to_double x =
     (if x = 0 then Finite 0
      else if \<bar>x\<bar> \<ge> 2 ^ 1024 - 2 ^ 970 then (if x > 0 then PosInf else NegInf)
      else let q = 2 powi ulp_exponent x
           in Finite (of_int (round_half_even (x / q)) * q))"

subsection \<open>Float arithmetic\<close>

text \<open>
  Addition, subtraction and multiplication of floats never raise: an overflow gives
  an infinity, and \<open>inf - inf\<close> and \<open>0 * inf\<close> give NaN. The division \<open>fdiv\<close> is
  only used with a divisor other than zero.
\<close>

fun fneg :: "double \<Rightarrow> double" where
  "fneg (Finite x) = Finite (- x)"
| "fneg PosInf = NegInf"
| "fneg NegInf = PosInf"
| "fneg NaN = NaN"

fun fadd :: "double \<Rightarrow> double \<Rightarrow> double" where
  "fadd (Finite x) (Finite y) = to_double (x + y)"
| "fadd NaN _ = NaN"
| "fadd _ NaN = NaN"
| "fadd PosInf NegInf = NaN"
| "fadd NegInf PosInf = NaN"
| "fadd PosInf _ = PosInf"
| "fadd NegInf _ = NegInf"
| "fadd _ PosInf = PosInf"
| "fadd _ NegInf = NegInf"

definition fsub :: "double \<Rightarrow> double \<Rightarrow> double" where
  "fsub x y = fadd x (fneg y)"

fun fmul :: "double \<Rightarrow> double \<Rightarrow> double" where
  "fmul (Finite x) (Finite y) = to_double (x * y)"
| "fmul NaN _ = NaN"
| "fmul _ NaN = NaN"
| "fmul (Finite x) PosInf = (if x = 0 then NaN else if x > 0 then PosInf else NegInf)"
| "fmul (Finite x) NegInf = (if x = 0 then NaN else if x > 0 then NegInf else PosInf)"
| "fmul PosInf (Finite y) = (if y = 0 then NaN else if y > 0 then PosInf else NegInf)"
| "fmul NegInf (Finite y) = (if y = 0 then NaN else if y > 0 then NegInf else PosInf)"
| "fmul PosInf PosInf = PosInf"
| "fmul NegInf NegInf = PosInf"
| "fmul PosInf NegInf = NegInf"
| "fmul NegInf PosInf = NegInf"

fun fdiv :: "double \<Rightarrow> double \<Rightarrow> double" where
  "fdiv (Finite x) (Finite y) = to_double (x / y)"
| "fdiv NaN _ = NaN"
| "fdiv _ NaN = NaN"
| "fdiv (Finite x) _ = Finite 0"
| "fdiv PosInf (Finite y) = (if y > 0 then PosInf else NegInf)"
| "fdiv NegInf (Finite y) = (if y > 0 then NegInf else PosInf)"
| "fdiv _ _ = NaN"

subsection \<open>Python's arithmetic operators\<close>

text \<open>
  Two \<^verbatim>\<open>int\<close> operands are added, subtracted and multiplied exactly. When at
  least one operand is a \<^verbatim>\<open>float\<close>, an \<^verbatim>\<open>int\<close> operand is first converted
  to a \<^verbatim>\<open>float\<close>, which raises \<^verbatim>\<open>OverflowError\<close> when the integer is too
  large for a double, and the float operation follows. True division \<^verbatim>\<open>/\<close> of
  two \<^verbatim>\<open>int\<close>s raises \<^verbatim>\<open>ZeroDivisionError\<close> for a zero divisor and
  otherwise returns the exact quotient rounded once, or raises
  \<^verbatim>\<open>OverflowError\<close> when that is too large for a double. True division with a
  \<^verbatim>\<open>float\<close> operand converts, raises \<^verbatim>\<open>ZeroDivisionError\<close> for a zero
  divisor and otherwise divides as floats. The comparison \<^verbatim>\<open>==\<close> compares the
  values, across \<^verbatim>\<open>int\<close> and \<^verbatim>\<open>float\<close>, and NaN equals nothing.
\<close>

definition finite_or_overflow :: "double \<Rightarrow> error + double" where
  "finite_or_overflow d = (case d of Finite r \<Rightarrow> Inr (Finite r) | _ \<Rightarrow> Inl OverflowError)"

fun as_float :: "pynum \<Rightarrow> error + double" where
  "as_float (PyInt n) = finite_or_overflow (to_double (of_int n))"
| "as_float (PyFloat d) = Inr d"

definition and_then :: "error + 'a \<Rightarrow> ('a \<Rightarrow> error + 'b) \<Rightarrow> error + 'b" where
  "and_then r f = (case r of Inl e \<Rightarrow> Inl e | Inr v \<Rightarrow> f v)"

definition float_op :: "(double \<Rightarrow> double \<Rightarrow> double) \<Rightarrow> pynum \<Rightarrow> pynum \<Rightarrow> error + pynum" where
  "float_op f a b =
     and_then (as_float a) (\<lambda>x. and_then (as_float b) (\<lambda>y. Inr (PyFloat (f x y))))"

fun py_add :: "pynum \<Rightarrow> pynum \<Rightarrow> error + pynum" where
  "py_add (PyInt i) (PyInt j) = Inr (PyInt (i + j))"
| "py_add a b = float_op fadd a b"

fun py_sub :: "pynum \<Rightarrow> pynum \<Rightarrow> error + pynum" where
  "py_sub (PyInt i) (PyInt j) = Inr (PyInt (i - j))"
| "py_sub a b = float_op fsub a b"

fun py_mul :: "pynum \<Rightarrow> pynum \<Rightarrow> error + pynum" where
  "py_mul (PyInt i) (PyInt j) = Inr (PyInt (i * j))"
| "py_mul a b = float_op fmul a b"

fun py_truediv :: "pynum \<Rightarrow> pynum \<Rightarrow> error + pynum" where
  "py_truediv (PyInt i) (PyInt j) =
     (if j = 0 then Inl ZeroDivisionError
      else and_then (finite_or_overflow (to_double (of_int i / of_int j)))
             (\<lambda>q. Inr (PyFloat q)))"
| "py_truediv a b =
     and_then (as_float a) (\<lambda>x. and_then (as_float b) (\<lambda>y.
       if y = Finite 0 then Inl ZeroDivisionError else Inr (PyFloat (fdiv x y))))"

definition py_eq :: "pynum \<Rightarrow> pynum \<Rightarrow> bool" where
  "py_eq a b =
     (case (a, b) of
        (PyInt i, PyInt j) \<Rightarrow> i = j
      | (PyInt i, PyFloat y) \<Rightarrow> y = Finite (of_int i)
      | (PyFloat x, PyInt j) \<Rightarrow> x = Finite (of_int j)
      | (PyFloat x, PyFloat y) \<Rightarrow> x \<noteq> NaN \<and> x = y)"

text \<open>
  \<open>int_valued a n\<close>: the number \<open>a\<close> is the integer \<open>n\<close>, given as an
  \<^verbatim>\<open>int\<close> or as a \<^verbatim>\<open>float\<close>.
\<close>

definition int_valued :: "pynum \<Rightarrow> int \<Rightarrow> bool" where
  "int_valued a n \<longleftrightarrow> a = PyInt n \<or> a = PyFloat (Finite (of_int n))"

subsection \<open>The three methods\<close>

text \<open>
  \<open>abduct\<close> evaluates its expression from left to right and stops at the first
  operation that raises. \<open>lambda_body\<close> is the body of the lambda in
  \<^verbatim>\<open>modify\<close>, for the captured \<open>t\<close> and the argument \<open>u\<close>.
\<close>

definition abduct :: "pynum \<Rightarrow> pynum \<Rightarrow> error + pynum" where
  "abduct t y =
     and_then (py_add t y) (\<lambda>s.
     and_then (py_sub s (PyInt 1)) (\<lambda>n.
     and_then (py_mul (PyInt 2) t) (\<lambda>m.
     and_then (py_sub m (PyInt 1)) (\<lambda>d.
     py_truediv n d))))"

definition lambda_body :: "pynum \<Rightarrow> pynum \<Rightarrow> error + pynum" where
  "lambda_body t u =
     and_then (py_mul t u) (\<lambda>p.
     and_then (py_sub t (PyInt 1)) (\<lambda>a.
     and_then (py_sub u (PyInt 1)) (\<lambda>b.
     and_then (py_mul a b) (\<lambda>q.
     py_add p q))))"

text \<open>
  State. The instance \<^verbatim>\<open>self\<close> has an attribute dictionary, which the class
  never fills and no method reads or assigns. A call of \<^verbatim>\<open>modify\<close> binds its
  argument \<open>t\<close> in a new closure cell and returns a function object that refers to
  that cell; calling the function object reads the cell and evaluates the body. A
  function object whose cell does not exist raises \<^verbatim>\<open>NameError\<close>.
  \<open>predict\<close> calls \<open>modify\<close> and then the function it returns.
\<close>

record pystate =
  self_dict :: "string \<rightharpoonup> pynum"
  cells :: "pynum list"

datatype function_obj = Lambda nat

definition modify :: "pynum \<Rightarrow> pystate \<Rightarrow> function_obj \<times> pystate" where
  "modify t s = (Lambda (length (cells s)), s\<lparr>cells := cells s @ [t]\<rparr>)"

fun call :: "function_obj \<Rightarrow> pynum \<Rightarrow> pystate \<Rightarrow> (error + pynum) \<times> pystate" where
  "call (Lambda c) u s =
     (if c < length (cells s) then (lambda_body (cells s ! c) u, s)
      else (Inl NameError, s))"

definition predict :: "pynum \<Rightarrow> pynum \<Rightarrow> pystate \<Rightarrow> (error + pynum) \<times> pystate" where
  "predict u t s = (let (f, s1) = modify t s in call f u s1)"

section \<open>Samplers of Chapter 2\<close>

subsection \<open>The random source and the array operations of the libraries\<close>

text \<open>
  The samplers draw from numpy's process-wide generator, through
  \<^verbatim>\<open>np.random.seed\<close>, \<^verbatim>\<open>np.random.randn\<close> and the \<^verbatim>\<open>rvs\<close>
  method of scipy's frozen distributions \<^verbatim>\<open>stats.uniform()\<close> and
  \<^verbatim>\<open>stats.norm()\<close>. These are library code, so they are parameters of the
  model: \<open>'g\<close> is the state of the generator, every draw takes the state and
  returns the drawn array together with the next state, and \<open>seed\<close> gives the state
  that reseeding installs.
\<close>

datatype dist = Uniform | Norm

record 'g np_random =
  seed :: "int \<Rightarrow> 'g"
  rvs :: "dist \<Rightarrow> nat \<Rightarrow> 'g \<Rightarrow> real list \<times> 'g"
  randn :: "nat \<Rightarrow> 'g \<Rightarrow> real list \<times> 'g"

text \<open>
  One-dimensional arrays are lists of real numbers, and array arithmetic is exact.
  A scalar combined with an array acts on every
  element (\<open>map\<close>). Adding two arrays is elementwise when the lengths agree; an
  array of length one is broadcast over the other; any other pair of lengths raises
  \<^verbatim>\<open>ValueError\<close>. A boolean array in arithmetic counts \<open>True\<close> as \<open>1\<close> and
  \<open>False\<close> as \<open>0\<close>.
\<close>

definition np_add :: "real list \<Rightarrow> real list \<Rightarrow> error + real list" where
  "np_add xs ys =
     (if length xs = length ys then Inr (map2 (+) xs ys)
      else if length xs = 1 then Inr (map (\<lambda>y. hd xs + y) ys)
      else if length ys = 1 then Inr (map (\<lambda>x. x + hd ys) xs)
      else Inl ValueError)"

subsection \<open>The binary scenario: class BookSCM\<close>

text \<open>
  \<^verbatim>\<open>
  class BookSCM:
      def __init__(self, random_seed=None):
          self.random_seed = random_seed
          self.u_0 = stats.uniform()
          self.u_1 = stats.norm()
      def sample(self, sample_size=100):
          u_0 = self.u_0.rvs(sample_size)
          u_1 = self.u_1.rvs(sample_size)
          a = u_0 > 0.61
          b = (a + 0.5 * u_1) > 0.2
          return a, b
  \<close>
  The constructor stores \<^verbatim>\<open>random_seed\<close> and does nothing else with it;
  \<^verbatim>\<open>rvs\<close> is called without a \<^verbatim>\<open>random_state\<close>, so it draws from the
  process-wide generator. The sample size is a natural number (the library rejects
  a negative size before it draws); the default \<open>100\<close> is for the caller to
  supply. The thresholds \<open>0.61\<close> and \<open>0.2\<close> and the factor \<open>0.5\<close> are the exact
  decimal fractions.
\<close>

record BookSCM =
  random_seed :: "int option"
  self_u_0 :: dist
  self_u_1 :: dist

definition BookSCM_init :: "int option \<Rightarrow> BookSCM" where
  "BookSCM_init s = \<lparr>random_seed = s, self_u_0 = Uniform, self_u_1 = Norm\<rparr>"

definition sample ::
  "'g np_random \<Rightarrow> BookSCM \<Rightarrow> nat \<Rightarrow> 'g \<Rightarrow> (error + bool list \<times> bool list) \<times> 'g" where
  "sample np self sample_size g =
     (let (u0, g1) = rvs np (self_u_0 self) sample_size g;
          (u1, g2) = rvs np (self_u_1 self) sample_size g1;
          a = map (\<lambda>x. x > 0.61) u0
      in case np_add (map of_bool a) (map (\<lambda>x. 0.5 * x) u1) of
           Inl e \<Rightarrow> (Inl e, g2)
         | Inr s \<Rightarrow> (Inr (a, map (\<lambda>x. x > 0.2) s), g2))"

subsection \<open>The continuous scenario: three notebook cells\<close>

text \<open>
  The cells work on the notebook's global variables, kept in a record together with
  the state of the generator. A cell that raises stops there: the result holds the
  error and the variables as they were at that point. The calls of
  \<^verbatim>\<open>stats.pearsonr\<close> and the \<^verbatim>\<open>print\<close> statements that end each cell only
  report and are left out. No array is updated in place, so that \<^verbatim>\<open>a = u_0\<close>
  binds both names to one array has no effect on the values.
  \<^verbatim>\<open>
  SAMPLE_SIZE = 100
  np.random.seed(42)
  u_0 = np.random.randn(SAMPLE_SIZE)
  u_1 = np.random.randn(SAMPLE_SIZE)
  a = u_0
  b = 5 * a + u_1
  \<close>
\<close>

record 'g notebook =
  SAMPLE_SIZE :: nat
  u_0 :: "real list"
  u_1 :: "real list"
  a_arr :: "real list"
  b_arr :: "real list"
  rng :: 'g

definition continuous_scenario ::
  "'g np_random \<Rightarrow> 'g notebook \<Rightarrow> error option \<times> 'g notebook" where
  "continuous_scenario np env =
     (let env1 = env\<lparr>SAMPLE_SIZE := 100\<rparr>;
          env2 = env1\<lparr>rng := seed np 42\<rparr>;
          (z0, g1) = randn np (SAMPLE_SIZE env2) (rng env2);
          env3 = env2\<lparr>u_0 := z0, rng := g1\<rparr>;
          (z1, g2) = randn np (SAMPLE_SIZE env3) (rng env3);
          env4 = env3\<lparr>u_1 := z1, rng := g2\<rparr>;
          env5 = env4\<lparr>a_arr := u_0 env4\<rparr>
      in case np_add (map (\<lambda>x. 5 * x) (a_arr env5)) (u_1 env5) of
           Inl e \<Rightarrow> (Some e, env5)
         | Inr v \<Rightarrow> (None, env5\<lparr>b_arr := v\<rparr>))"

text \<open>
  The intervention on A; the notebook fixes A at \<open>1.5\<close>:
  \<^verbatim>\<open>
  a = np.array([1.5] * SAMPLE_SIZE)
  b = 5 * a + u_1
  \<close>
\<close>

definition intervene_on_A :: "real \<Rightarrow> 'g notebook \<Rightarrow> error option \<times> 'g notebook" where
  "intervene_on_A c env =
     (let env1 = env\<lparr>a_arr := replicate (SAMPLE_SIZE env) c\<rparr>
      in case np_add (map (\<lambda>x. 5 * x) (a_arr env1)) (u_1 env1) of
           Inl e \<Rightarrow> (Some e, env1)
         | Inr v \<Rightarrow> (None, env1\<lparr>b_arr := v\<rparr>))"

definition intervention_on_A_cell :: "'g notebook \<Rightarrow> error option \<times> 'g notebook" where
  "intervention_on_A_cell env = intervene_on_A 1.5 env"

text \<open>
  The intervention on B:
  \<^verbatim>\<open>
  a = u_0
  b = np.random.randn(SAMPLE_SIZE)
  \<close>
\<close>

definition intervene_on_B :: "'g np_random \<Rightarrow> 'g notebook \<Rightarrow> 'g notebook" where
  "intervene_on_B np env =
     (let env1 = env\<lparr>a_arr := u_0 env\<rparr>;
          (z, g1) = randn np (SAMPLE_SIZE env1) (rng env1)
      in env1\<lparr>b_arr := z, rng := g1\<rparr>)"

subsection \<open>A generator for concrete evaluations\<close>

text \<open>
  To run the samplers on concrete inputs, a generator whose state is the list of the
  numbers it will hand out next: a draw of \<open>n\<close> takes the first \<open>n\<close> of them (and
  zeros once the list is used up) and leaves the rest; seeding with \<open>s\<close> installs a
  list fixed by \<open>s\<close>.
\<close>

definition tape_draw :: "nat \<Rightarrow> real list \<Rightarrow> real list \<times> real list" where
  "tape_draw n g = (take n g @ replicate (n - length g) 0, drop n g)"

definition tape_seed :: "int \<Rightarrow> real list" where
  "tape_seed s = map (\<lambda>k. (of_int s + of_nat k) / 100) [0..<4]"

definition tape_random :: "real list np_random" where
  "tape_random = \<lparr>seed = tape_seed, rvs = (\<lambda>d. tape_draw), randn = tape_draw\<rparr>"

section \<open>Properties of the counterfactual engine\<close>

subsection \<open>Rounding and exact integer arithmetic\<close>

lemma round_half_even_of_int: "round_half_even (of_int k) = k"
  by (simp add: round_half_even_def)

lemma floor_log2_eq:
  assumes "0 < x" and "2 powi e \<le> x" and "x < 2 powi (e + 1)"
  shows "\<lfloor>log 2 x\<rfloor> = e"
proof -
  have lo: "of_int e \<le> log 2 x"
    using assms by (simp add: le_log_iff powr_real_of_int')
  have "(2::real) powr (of_int (e + 1)) = 2 powi (e + 1)"
    by (rule powr_real_of_int') simp_all
  with assms have "x < 2 powr (of_int (e + 1))" by simp
  then have "log 2 x < of_int (e + 1)"
    using assms by (simp only: log_less_iff)
  then have hi: "log 2 x < of_int e + 1" by simp
  from lo hi show ?thesis by (simp add: floor_eq_iff)
qed

lemma to_double_eval:
  assumes "x \<noteq> 0" and "\<bar>x\<bar> < 2 ^ 1024 - 2 ^ 970"
    and "2 powi e \<le> \<bar>x\<bar>" and "\<bar>x\<bar> < 2 powi (e + 1)"
    and "k = max e (- 1022) - 52"
  shows "to_double x = Finite (of_int (round_half_even (x / 2 powi k)) * 2 powi k)"
proof -
  have "\<lfloor>log 2 \<bar>x\<bar>\<rfloor> = e"
    using assms by (intro floor_log2_eq) auto
  then have "ulp_exponent x = k"
    using assms by (simp add: ulp_exponent_def)
  then show ?thesis
    using assms by (simp add: to_double_def Let_def)
qed

lemma to_double_of_int:
  assumes "\<bar>n\<bar> < 2 ^ 53"
  shows "to_double (of_int n) = Finite (of_int n)"
proof (cases "n = 0")
  case True
  then show ?thesis by (simp add: to_double_def)
next
  case False
  define x :: real where "x = of_int n"
  define e where "e = \<lfloor>log 2 \<bar>x\<bar>\<rfloor>"
  have x1: "1 \<le> \<bar>x\<bar>" using False by (simp add: x_def flip: of_int_abs)
  have "\<bar>x\<bar> < 2 ^ 53" using assms by (simp add: x_def flip: of_int_abs)
  then have x53: "\<bar>x\<bar> < 2 powr 53" by simp
  have e0: "0 \<le> e" unfolding e_def using x1 by simp
  have "log 2 \<bar>x\<bar> < 53" using x1 x53 by (simp add: log_less_iff)
  then have e52: "e \<le> 52" unfolding e_def by (simp add: floor_le_iff) 
  have ulp: "ulp_exponent x = e - 52"
    using e0 by (simp add: ulp_exponent_def e_def)
  define j where "j = nat (52 - e)"
  have q: "(2::real) powi (e - 52) = 1 / 2 ^ j"
    using e52 by (simp add: power_int_def j_def field_simps)
  have m: "x / 2 powi (e - 52) = of_int (n * 2 ^ j)"
    by (simp add: q x_def)
  have small: "\<bar>x\<bar> < 2 ^ 1024 - 2 ^ 970"
    using \<open>\<bar>x\<bar> < 2 ^ 53\<close> by simp
  have "x \<noteq> 0" using x1 by auto
  then have "to_double x = Finite (of_int (round_half_even (x / 2 powi (e - 52))) * 2 powi (e - 52))"
    using small by (simp add: to_double_def ulp Let_def)
  also have "\<dots> = Finite x"
    unfolding m round_half_even_of_int by (simp add: q x_def)
  finally show ?thesis by (simp add: x_def)
qed


lemma to_double_int_valued:
  "x = of_int k \<Longrightarrow> \<bar>k\<bar> < 2 ^ 53 \<Longrightarrow> to_double x = Finite (of_int k)"
  by (simp add: to_double_of_int)

lemma as_float_int_valued:
  "int_valued a i \<Longrightarrow> \<bar>i\<bar> < 2 ^ 53 \<Longrightarrow> as_float a = Inr (Finite (of_int i))"
  by (auto simp add: int_valued_def finite_or_overflow_def to_double_of_int)

lemma float_op_int_valued:
  assumes "int_valued a i" and "int_valued b j" and "\<bar>i\<bar> < 2 ^ 53" and "\<bar>j\<bar> < 2 ^ 53"
  shows "float_op f a b = Inr (PyFloat (f (Finite (of_int i)) (Finite (of_int j))))"
  using assms by (simp add: float_op_def and_then_def as_float_int_valued)

lemma py_add_int_valued:
  assumes "int_valued a i" and "int_valued b j"
    and "\<bar>i\<bar> < 2 ^ 53" and "\<bar>j\<bar> < 2 ^ 53" and "\<bar>i + j\<bar> < 2 ^ 53"
  shows "\<exists>c. py_add a b = Inr c \<and> int_valued c (i + j)"
proof (cases "\<exists>i' j'. a = PyInt i' \<and> b = PyInt j'")
  case True
  with assms show ?thesis by (auto simp add: int_valued_def)
next
  case False
  then have "py_add a b = float_op fadd a b"
    by (cases a; cases b) auto
  also have "\<dots> = Inr (PyFloat (to_double (of_int i + of_int j)))"
    using assms by (simp add: float_op_int_valued)
  also have "to_double (of_int i + of_int j) = Finite (of_int (i + j))"
    using assms by (intro to_double_int_valued) auto
  finally show ?thesis by (simp add: int_valued_def)
qed

lemma py_sub_int_valued:
  assumes "int_valued a i" and "int_valued b j"
    and "\<bar>i\<bar> < 2 ^ 53" and "\<bar>j\<bar> < 2 ^ 53" and "\<bar>i - j\<bar> < 2 ^ 53"
  shows "\<exists>c. py_sub a b = Inr c \<and> int_valued c (i - j)"
proof (cases "\<exists>i' j'. a = PyInt i' \<and> b = PyInt j'")
  case True
  with assms show ?thesis by (auto simp add: int_valued_def)
next
  case False
  then have "py_sub a b = float_op fsub a b"
    by (cases a; cases b) auto
  also have "\<dots> = Inr (PyFloat (to_double (of_int i + - of_int j)))"
    using assms by (simp add: float_op_int_valued fsub_def)
  also have "to_double (of_int i + - of_int j) = Finite (of_int (i - j))"
    using assms by (intro to_double_int_valued) auto
  finally show ?thesis by (simp add: int_valued_def)
qed

lemma py_mul_int_valued:
  assumes "int_valued a i" and "int_valued b j"
    and "\<bar>i\<bar> < 2 ^ 53" and "\<bar>j\<bar> < 2 ^ 53" and "\<bar>i * j\<bar> < 2 ^ 53"
  shows "\<exists>c. py_mul a b = Inr c \<and> int_valued c (i * j)"
proof (cases "\<exists>i' j'. a = PyInt i' \<and> b = PyInt j'")
  case True
  with assms show ?thesis by (auto simp add: int_valued_def)
next
  case False
  then have "py_mul a b = float_op fmul a b"
    by (cases a; cases b) auto
  also have "\<dots> = Inr (PyFloat (to_double (of_int i * of_int j)))"
    using assms by (simp add: float_op_int_valued)
  also have "to_double (of_int i * of_int j) = Finite (of_int (i * j))"
    using assms by (intro to_double_int_valued) auto
  finally show ?thesis by (simp add: int_valued_def)
qed

lemma py_truediv_unit:
  assumes "int_valued a i" and "int_valued b j" and "j = 1 \<or> j = - 1" and "\<bar>i\<bar> < 2 ^ 53"
  shows "py_truediv a b = Inr (PyFloat (Finite (of_int (i * j))))"
proof -
  have q: "(of_int i / of_int j :: real) = of_int (i * j)"
    using assms(3) by auto
  have r: "to_double (of_int i / of_int j) = Finite (of_int (i * j))"
    using assms q by (intro to_double_int_valued) auto
  have nz: "Finite (real_of_int j) \<noteq> Finite 0" using assms(3) by auto
  have small: "\<bar>j\<bar> < 2 ^ 53" using assms(3) by auto
  show ?thesis
  proof (cases "\<exists>i' j'. a = PyInt i' \<and> b = PyInt j'")
    case True
    with assms r show ?thesis
      by (auto simp add: int_valued_def and_then_def finite_or_overflow_def)
  next
    case False
    then have "py_truediv a b =
       and_then (as_float a) (\<lambda>x. and_then (as_float b) (\<lambda>y.
         if y = Finite 0 then Inl ZeroDivisionError else Inr (PyFloat (fdiv x y))))"
      by (cases a; cases b) auto
    also have "\<dots> = Inr (PyFloat (to_double (of_int i / of_int j)))"
      using assms small nz by (simp add: and_then_def as_float_int_valued)
    finally show ?thesis using r by simp
  qed
qed

lemma py_eq_int_valued: "int_valued a n \<Longrightarrow> int_valued b n \<Longrightarrow> py_eq a b"
  by (auto simp add: int_valued_def py_eq_def)

lemma abduct_int_valued:
  assumes t: "int_valued t b" and b: "b = 0 \<or> b = 1"
    and y: "int_valued y n" and n: "\<bar>n\<bar> \<le> 2 ^ 52"
  shows "abduct t y = Inr (PyFloat (Finite (of_int ((b + n - 1) * (2 * b - 1)))))"
proof -
  from b n have bb: "\<bar>b\<bar> < 2 ^ 53" "\<bar>n\<bar> < 2 ^ 53" "\<bar>b + n\<bar> < 2 ^ 53"
    "\<bar>b + n - 1\<bar> < 2 ^ 53" "\<bar>2 * b\<bar> < 2 ^ 53" "\<bar>2 * b - 1\<bar> < 2 ^ 53"
    by auto
  have one: "int_valued (PyInt 1) 1" and two: "int_valued (PyInt 2) 2"
    by (simp_all add: int_valued_def)
  obtain s where s: "py_add t y = Inr s" "int_valued s (b + n)"
    using py_add_int_valued [OF t y] bb by blast
  obtain m where m: "py_sub s (PyInt 1) = Inr m" "int_valued m (b + n - 1)"
    using py_sub_int_valued [OF s(2) one] bb by auto
  obtain p where p: "py_mul (PyInt 2) t = Inr p" "int_valued p (2 * b)"
    using py_mul_int_valued [OF two t] bb by auto
  obtain d where d: "py_sub p (PyInt 1) = Inr d" "int_valued d (2 * b - 1)"
    using py_sub_int_valued [OF p(2) one] bb by auto
  have "py_truediv m d = Inr (PyFloat (Finite (of_int ((b + n - 1) * (2 * b - 1)))))"
    using py_truediv_unit [OF m(2) d(2)] b bb by auto
  with s m p d show ?thesis by (simp add: abduct_def and_then_def)
qed

lemma lambda_body_int_valued:
  assumes t: "int_valued t b" and b: "b = 0 \<or> b = 1"
    and u: "int_valued u k" and k: "\<bar>k\<bar> \<le> 2 ^ 52 + 1"
  shows "\<exists>r. lambda_body t u = Inr r \<and> int_valued r (b * k + (b - 1) * (k - 1))"
proof -
  from b k have bb: "\<bar>b\<bar> < 2 ^ 53" "\<bar>k\<bar> < 2 ^ 53" "\<bar>b * k\<bar> < 2 ^ 53"
    "\<bar>b - 1\<bar> < 2 ^ 53" "\<bar>k - 1\<bar> < 2 ^ 53" "\<bar>(b - 1) * (k - 1)\<bar> < 2 ^ 53"
    "\<bar>b * k + (b - 1) * (k - 1)\<bar> < 2 ^ 53"
    by auto
  have one: "int_valued (PyInt 1) 1"
    by (simp add: int_valued_def)
  obtain p where p: "py_mul t u = Inr p" "int_valued p (b * k)"
    using py_mul_int_valued [OF t u] bb by blast
  obtain a where a: "py_sub t (PyInt 1) = Inr a" "int_valued a (b - 1)"
    using py_sub_int_valued [OF t one] bb by auto
  obtain c where c: "py_sub u (PyInt 1) = Inr c" "int_valued c (k - 1)"
    using py_sub_int_valued [OF u one] bb by auto
  obtain q where q: "py_mul a c = Inr q" "int_valued q ((b - 1) * (k - 1))"
    using py_mul_int_valued [OF a(2) c(2)] bb by blast
  obtain r where r: "py_add p q = Inr r" "int_valued r (b * k + (b - 1) * (k - 1))"
    using py_add_int_valued [OF p(2) q(2)] bb by blast
  with p a c q show ?thesis by (simp add: lambda_body_def and_then_def)
qed

lemma to_double_1: "to_double 1 = Finite 1"
  using to_double_of_int [of 1] by simp

lemma to_double_2: "to_double 2 = Finite 2"
  using to_double_of_int [of 2] by simp

lemma to_double_m1: "to_double (- 1) = Finite (- 1)"
  using to_double_of_int [of "- 1"] by simp

lemma to_double_0: "to_double 0 = Finite 0"
  by (simp add: to_double_def)

lemma as_float_cases: "as_float a = Inl OverflowError \<or> (\<exists>d. as_float a = Inr d)"
  by (cases a) (auto simp add: finite_or_overflow_def split: double.splits)

lemma to_double_below_threshold:
  "\<bar>x\<bar> < 2 ^ 1024 - 2 ^ 970 \<Longrightarrow> \<exists>r. to_double x = Finite r"
  by (simp add: to_double_def Let_def)

lemma finite_or_overflow_cases:
  "finite_or_overflow d = Inl OverflowError \<or> (\<exists>r. finite_or_overflow d = Inr (Finite r))"
  by (cases d) (simp_all add: finite_or_overflow_def)

lemma as_float_below_threshold:
  assumes "\<bar>n\<bar> < 2 ^ 1023"
  shows "\<exists>r. as_float (PyInt n) = Inr (Finite r)"
proof -
  have "\<bar>real_of_int n\<bar> < 2 ^ 1023"
    using assms by (simp flip: of_int_abs)
  then have "\<bar>real_of_int n\<bar> < 2 ^ 1024 - 2 ^ 970" by simp
  from to_double_below_threshold [OF this] show ?thesis
    by (auto simp add: finite_or_overflow_def)
qed

lemma py_truediv_float_unit:
  assumes "int_valued d j" and "j = 1 \<or> j = - 1"
  shows "py_truediv (PyFloat x) d = Inr (PyFloat (fdiv x (Finite (of_int j))))"
proof -
  have "\<bar>j\<bar> < 2 ^ 53" using assms(2) by auto
  from as_float_int_valued [OF assms(1) this] assms(2) show ?thesis
    by (cases d) (auto simp add: and_then_def)
qed

lemma py_sub_float_one:
  "py_sub (PyFloat x) (PyInt 1) = Inr (PyFloat (fsub x (Finite 1)))"
  by (simp add: float_op_def and_then_def finite_or_overflow_def to_double_1)

lemma abduct_on_ints:
  "abduct (PyInt i) (PyInt j) =
     and_then (finite_or_overflow (to_double (of_int (i + j - 1) / of_int (2 * i - 1))))
       (\<lambda>q. Inr (PyFloat q))"
proof -
  have "2 * i - 1 \<noteq> 0" by presburger
  then show ?thesis by (simp add: abduct_def and_then_def)
qed

subsection \<open>The double nearest to one tenth\<close>

text \<open>
  The literal \<^verbatim>\<open>0.1\<close> is the double \<open>3602879701896397 / 2^55\<close>. With
  \<open>t = 1\<close>, \<open>abduct\<close> first rounds \<open>1 + 0.1\<close> and returns
  \<open>450359962737050 / 2^52\<close>, printed \<^verbatim>\<open>0.10000000000000009\<close>.
\<close>

lemma one_tenth_is_double:
  "to_double (3602879701896397 / 2 ^ 55) = Finite (3602879701896397 / 2 ^ 55)"
  by (subst to_double_eval [where e = "- 4" and k = "- 56"])
     (simp_all add: round_half_even_def Let_def)

lemma abduct_one_tenth:
  "abduct (PyInt 1) (PyFloat (Finite (3602879701896397 / 2 ^ 55)))
     = Inr (PyFloat (Finite (450359962737050 / 2 ^ 52)))"
proof -
  have one: "to_double 1 = Finite 1"
    using to_double_of_int [of 1] by simp
  have s1: "to_double (1 + 3602879701896397 / 2 ^ 55) = Finite (4953959590107546 / 2 ^ 52)"
    by (subst to_double_eval [where e = 0 and k = "- 52"])
       (simp_all add: round_half_even_def Let_def)
  have s2: "to_double (4953959590107546 / 2 ^ 52 + - 1) = Finite (450359962737050 / 2 ^ 52)"
    by (subst to_double_eval [where e = "- 4" and k = "- 56"])
       (simp_all add: round_half_even_def Let_def)
  have s3: "to_double (450359962737050 / 2 ^ 52 / 1) = Finite (450359962737050 / 2 ^ 52)"
    by (subst to_double_eval [where e = "- 4" and k = "- 56"])
       (simp_all add: round_half_even_def Let_def)
  have add: "py_add (PyInt 1) (PyFloat (Finite (3602879701896397 / 2 ^ 55)))
        = Inr (PyFloat (Finite (4953959590107546 / 2 ^ 52)))"
    using one s1 by (simp add: float_op_def and_then_def finite_or_overflow_def)
  have sub: "py_sub (PyFloat (Finite (4953959590107546 / 2 ^ 52))) (PyInt 1)
        = Inr (PyFloat (Finite (450359962737050 / 2 ^ 52)))"
    using one s2 by (simp add: float_op_def and_then_def finite_or_overflow_def fsub_def)
  have dv: "py_truediv (PyFloat (Finite (450359962737050 / 2 ^ 52))) (PyInt 1)
        = Inr (PyFloat (Finite (450359962737050 / 2 ^ 52)))"
    using one s3 by (simp add: and_then_def finite_or_overflow_def)
  show ?thesis
    unfolding abduct_def using add sub dv by (simp add: and_then_def)
qed

lemma lambda_body_one_tenth:
  "lambda_body (PyInt 1) (PyFloat (Finite (450359962737050 / 2 ^ 52)))
     = Inr (PyFloat (Finite (450359962737050 / 2 ^ 52)))"
proof -
  have one: "to_double 1 = Finite 1"
    using to_double_of_int [of 1] by simp
  have zero: "to_double 0 = Finite 0"
    by (simp add: to_double_def)
  have s1: "to_double (1 * (450359962737050 / 2 ^ 52)) = Finite (450359962737050 / 2 ^ 52)"
    by (subst to_double_eval [where e = "- 4" and k = "- 56"])
       (simp_all add: round_half_even_def Let_def)
  have s2: "to_double (450359962737050 / 2 ^ 52 + - 1) = Finite (- 4053239664633446 / 2 ^ 52)"
    by (subst to_double_eval [where e = "- 1" and k = "- 53"])
       (simp_all add: round_half_even_def Let_def)
  have s3: "to_double (450359962737050 / 2 ^ 52 + 0) = Finite (450359962737050 / 2 ^ 52)"
    by (subst to_double_eval [where e = "- 4" and k = "- 56"])
       (simp_all add: round_half_even_def Let_def)
  have p: "py_mul (PyInt 1) (PyFloat (Finite (450359962737050 / 2 ^ 52)))
        = Inr (PyFloat (Finite (450359962737050 / 2 ^ 52)))"
    using one s1 by (simp add: float_op_def and_then_def finite_or_overflow_def)
  have c: "py_sub (PyFloat (Finite (450359962737050 / 2 ^ 52))) (PyInt 1)
        = Inr (PyFloat (Finite (- 4053239664633446 / 2 ^ 52)))"
    using one s2 by (simp add: float_op_def and_then_def finite_or_overflow_def fsub_def)
  have q: "py_mul (PyInt 0) (PyFloat (Finite (- 4053239664633446 / 2 ^ 52)))
        = Inr (PyFloat (Finite 0))"
    using zero by (simp add: float_op_def and_then_def finite_or_overflow_def)
  have r: "py_add (PyFloat (Finite (450359962737050 / 2 ^ 52))) (PyFloat (Finite 0))
        = Inr (PyFloat (Finite (450359962737050 / 2 ^ 52)))"
    using s3 by (simp add: float_op_def and_then_def)
  show ?thesis
    unfolding lambda_body_def using p c q r by (simp add: and_then_def)
qed

subsection \<open>The claims\<close>




text \<open>
  Claim C2 as stated, the round trip for every real \<open>y\<close>, fails at \<open>t = 1\<close>,
  \<open>y = 0.1\<close>: \<open>predict\<close> of the abducted trait returns
  \<^verbatim>\<open>0.10000000000000009\<close>, which does not equal \<open>y\<close>.
\<close>

theorem roundtrip_counterexample:
  "abduct (PyInt 1) (PyFloat (Finite (3602879701896397 / 2 ^ 55)))
     = Inr (PyFloat (Finite (450359962737050 / 2 ^ 52)))
   \<and> fst (predict (PyFloat (Finite (450359962737050 / 2 ^ 52))) (PyInt 1)
            \<lparr>self_dict = Map.empty, cells = []\<rparr>)
     = Inr (PyFloat (Finite (450359962737050 / 2 ^ 52)))
   \<and> \<not> py_eq (PyFloat (Finite (450359962737050 / 2 ^ 52)))
              (PyFloat (Finite (3602879701896397 / 2 ^ 55)))
   \<and> to_double (3602879701896397 / 2 ^ 55) = Finite (3602879701896397 / 2 ^ 55)"
  using abduct_one_tenth lambda_body_one_tenth one_tenth_is_double
  by (simp add: predict_def modify_def py_eq_def)

text \<open>
  Claim C2, amended. Round trip: for a binary treatment \<open>t\<close> (0 or 1) and an outcome
  \<open>y\<close> that is an integer \<open>n\<close> with \<open>|n| \<le> 2^52\<close> (in particular 0 or 1), each
  given as \<^verbatim>\<open>int\<close> or as \<^verbatim>\<open>float\<close>, abduction succeeds, and predicting
  from the abducted trait under the same treatment returns a number equal to \<open>y\<close>.
\<close>

theorem abduct_predict_roundtrip:
  assumes "int_valued t b" and "b = 0 \<or> b = 1" and "int_valued y n" and "\<bar>n\<bar> \<le> 2 ^ 52"
  shows "\<exists>u r s'. abduct t y = Inr u \<and> predict u t s = (Inr r, s') \<and> py_eq r y"
proof -
  let ?k = "(b + n - 1) * (2 * b - 1)"
  let ?u = "PyFloat (Finite (of_int ?k))"
  have u: "int_valued ?u ?k" by (simp add: int_valued_def)
  have k: "\<bar>?k\<bar> \<le> 2 ^ 52 + 1" using assms(2,4) by auto
  obtain r where r: "lambda_body t ?u = Inr r" "int_valued r (b * ?k + (b - 1) * (?k - 1))"
    using lambda_body_int_valued [OF assms(1,2) u k] by blast
  have "b * ?k + (b - 1) * (?k - 1) = n" using assms(2) by auto
  with r have "int_valued r n" by simp
  then have eq: "py_eq r y" using assms(3) by (rule py_eq_int_valued)
  have "predict ?u t s = (Inr r, s\<lparr>cells := cells s @ [t]\<rparr>)"
    using r by (simp add: predict_def modify_def)
  with abduct_int_valued [OF assms] eq show ?thesis by blast
qed

theorem abduct_predict_roundtrip_witness:
  "int_valued (PyInt 0) 0 \<and> ((0::int) = 0 \<or> (0::int) = 1)
   \<and> int_valued (PyInt 1) 1 \<and> \<bar>1::int\<bar> \<le> 2 ^ 52
   \<and> (\<exists>u r s'. abduct (PyInt 0) (PyInt 1) = Inr u
         \<and> predict u (PyInt 0) \<lparr>self_dict = Map.empty, cells = []\<rparr> = (Inr r, s')
         \<and> py_eq r (PyInt 1))"
  using abduct_predict_roundtrip [of "PyInt 0" 0 "PyInt 1" 1
          "\<lparr>self_dict = Map.empty, cells = []\<rparr>"]
  by (simp add: int_valued_def)

text \<open>
  Claim C7. Calling \<open>abduct\<close> with \<open>t = 0.5\<close> never returns a value: it raises for
  every \<open>y\<close>. The divisor \<open>2 t - 1\<close> is exactly zero, so the call raises
  \<^verbatim>\<open>ZeroDivisionError\<close>, for every float \<open>y\<close> (infinities and NaN included)
  and every \<^verbatim>\<open>int\<close> \<open>y\<close> that converts to a float; for an \<^verbatim>\<open>int\<close> \<open>y\<close> too
  large to convert, the sum \<open>t + y\<close> has already raised \<^verbatim>\<open>OverflowError\<close>.
\<close>

theorem abduct_half_raises:
  "abduct (PyFloat (Finite (1 / 2))) y
     = Inl (if as_float y = Inl OverflowError then OverflowError else ZeroDivisionError)
   \<and> abduct (PyFloat (Finite (1 / 2))) (PyFloat d) = Inl ZeroDivisionError"
proof -
  have dv: "and_then (py_mul (PyInt 2) (PyFloat (Finite (1 / 2))))
              (\<lambda>m. py_sub m (PyInt 1)) = Inr (PyFloat (Finite 0))"
    by (simp add: float_op_def and_then_def finite_or_overflow_def fsub_def
          to_double_1 to_double_2 to_double_0)
  have gen: "abduct (PyFloat (Finite (1 / 2))) z
     = Inl (if as_float z = Inl OverflowError then OverflowError else ZeroDivisionError)" for z
    using as_float_cases [of z]
    by (auto simp add: abduct_def float_op_def and_then_def finite_or_overflow_def fsub_def
          to_double_1 to_double_2 to_double_0)
  from gen [of y] gen [of "PyFloat d"] show ?thesis by simp
qed

text \<open>
  Claim C8. The worked example of the notebook: \<open>abduct\<close> at \<open>t = 1\<close>, \<open>y = 1\<close>
  returns the float \<open>1.0\<close>, and \<open>predict\<close> at \<open>u = 1.0\<close>, \<open>t = 0\<close> returns the
  float \<open>0.0\<close>.
\<close>

theorem coffee_worked_example:
  "abduct (PyInt 1) (PyInt 1) = Inr (PyFloat (Finite 1))
   \<and> fst (predict (PyFloat (Finite 1)) (PyInt 0) s) = Inr (PyFloat (Finite 0))"
  by (simp add: abduct_def predict_def modify_def lambda_body_def float_op_def and_then_def
        finite_or_overflow_def fsub_def to_double_1 to_double_0 to_double_m1)



text \<open>
  Claim C10 as stated, that \<open>abduct\<close> is total for binary \<open>t\<close> and every \<open>y\<close>,
  fails at \<open>t = 1\<close> and the \<^verbatim>\<open>int\<close> \<open>y = 10^400\<close>: the quotient is too large
  for a double and the division raises \<^verbatim>\<open>OverflowError\<close>.
\<close>

theorem abduct_overflow_counterexample:
  "abduct (PyInt 1) (PyInt (10 ^ 400)) = Inl OverflowError"
  by (simp add: abduct_def and_then_def to_double_def finite_or_overflow_def)

text \<open>
  Claim C10, amended. For a binary treatment \<open>t\<close> (0 or 1, as \<^verbatim>\<open>int\<close> or as
  \<^verbatim>\<open>float\<close>) the divisor \<open>2 t - 1\<close> is exactly \<open>-1\<close> or \<open>1\<close>, so for every \<open>y\<close>
  \<open>abduct\<close> does not raise \<^verbatim>\<open>ZeroDivisionError\<close>: it returns a float or raises
  \<^verbatim>\<open>OverflowError\<close>, and it returns a float whenever \<open>y\<close> is a float or an
  \<^verbatim>\<open>int\<close> of magnitude below \<open>2^1023\<close>.
\<close>

theorem abduct_binary_no_zero_division:
  assumes t: "int_valued t b" and b: "b = 0 \<or> b = 1"
  shows "(\<exists>d. and_then (py_mul (PyInt 2) t) (\<lambda>m. py_sub m (PyInt 1)) = Inr d
              \<and> (int_valued d 1 \<or> int_valued d (- 1)))
       \<and> abduct t y \<noteq> Inl ZeroDivisionError
       \<and> (abduct t y = Inl OverflowError \<or> (\<exists>r. abduct t y = Inr (PyFloat r)))
       \<and> ((\<forall>n. y = PyInt n \<longrightarrow> \<bar>n\<bar> < 2 ^ 1023) \<longrightarrow> (\<exists>r. abduct t y = Inr (PyFloat r)))"
proof -
  from b have bb: "\<bar>b\<bar> < 2 ^ 53" "\<bar>2 * b\<bar> < 2 ^ 53" "\<bar>2 * b - 1\<bar> < 2 ^ 53"
    by auto
  have one: "int_valued (PyInt 1) 1" and two: "int_valued (PyInt 2) 2"
    by (simp_all add: int_valued_def)
  obtain p where p: "py_mul (PyInt 2) t = Inr p" "int_valued p (2 * b)"
    using py_mul_int_valued [OF two t] bb by auto
  obtain d where d: "py_sub p (PyInt 1) = Inr d" "int_valued d (2 * b - 1)"
    using py_sub_int_valued [OF p(2) one] bb by auto
  have unit: "2 * b - 1 = 1 \<or> 2 * b - 1 = - 1" using b by auto
  have div: "and_then (py_mul (PyInt 2) t) (\<lambda>m. py_sub m (PyInt 1)) = Inr d"
    using p d by (simp add: and_then_def)
  have ab: "abduct t y
      = and_then (py_add t y) (\<lambda>s. and_then (py_sub s (PyInt 1)) (\<lambda>n. py_truediv n d))"
    using p d by (simp add: abduct_def and_then_def)
  have res: "(abduct t y = Inl OverflowError \<or> (\<exists>r. abduct t y = Inr (PyFloat r)))
       \<and> ((\<forall>n. y = PyInt n \<longrightarrow> \<bar>n\<bar> < 2 ^ 1023) \<longrightarrow> (\<exists>r. abduct t y = Inr (PyFloat r)))"
  proof (cases "\<exists>n. t = PyInt b \<and> y = PyInt n")
    case True
    then obtain n where tn: "t = PyInt b" "y = PyInt n" by blast
    have dd: "d = PyInt (2 * b - 1)" using p d tn by auto
    have nz: "2 * b - 1 \<noteq> 0" using unit by auto
    let ?q = "real_of_int (b + n - 1) / real_of_int (2 * b - 1)"
    have ab2: "abduct t y = and_then (finite_or_overflow (to_double ?q)) (\<lambda>q. Inr (PyFloat q))"
      unfolding tn by (rule abduct_on_ints)
    have first: "abduct t y = Inl OverflowError \<or> (\<exists>r. abduct t y = Inr (PyFloat r))"
      using finite_or_overflow_cases [of "to_double ?q"] by (auto simp add: ab2 and_then_def)
    have second: "\<exists>r. abduct t y = Inr (PyFloat r)" if "\<bar>n\<bar> < 2 ^ 1023"
    proof -
      have "\<bar>?q\<bar> = \<bar>real_of_int (b + n - 1)\<bar>" using unit by auto
      also have "\<dots> = real_of_int \<bar>b + n - 1\<bar>" by simp
      also have "\<dots> \<le> real_of_int (2 ^ 1023)"
        using that b by (intro of_int_le_iff [THEN iffD2]) auto
      finally have "\<bar>?q\<bar> < 2 ^ 1024 - 2 ^ 970" by simp
      from to_double_below_threshold [OF this] show ?thesis
        by (auto simp add: ab2 and_then_def finite_or_overflow_def)
    qed
    from first second tn show ?thesis by simp
  next
    case False
    then have fl: "py_add t y = float_op fadd t y"
      using t by (cases t; cases y) (auto simp add: int_valued_def)
    have at: "as_float t = Inr (Finite (of_int b))"
      using as_float_int_valued [OF t] bb by simp
    have step: "abduct t y = Inr (PyFloat (fdiv (fsub (fadd (Finite (of_int b)) x) (Finite 1))
                  (Finite (of_int (2 * b - 1)))))" if "as_float y = Inr x" for x
    proof -
      have s1: "py_add t y = Inr (PyFloat (fadd (Finite (of_int b)) x))"
        using that at by (simp add: fl float_op_def and_then_def)
      note s2 = py_sub_float_one [of "fadd (Finite (of_int b)) x"]
      note s3 = py_truediv_float_unit [OF d(2) unit,
                  of "fsub (fadd (Finite (of_int b)) x) (Finite 1)"]
      show ?thesis
        by (simp only: ab s1 s2 s3 and_then_def sum.case)
    qed
    have err: "abduct t y = Inl OverflowError" if "as_float y = Inl OverflowError"
      using that at by (simp add: ab fl float_op_def and_then_def)
    have first: "abduct t y = Inl OverflowError \<or> (\<exists>r. abduct t y = Inr (PyFloat r))"
      using as_float_cases [of y] step err by blast
    have second: "\<exists>r. abduct t y = Inr (PyFloat r)" if "\<forall>n. y = PyInt n \<longrightarrow> \<bar>n\<bar> < 2 ^ 1023"
    proof (cases y)
      case (PyInt n)
      with that as_float_below_threshold [of n] step show ?thesis by auto
    next
      case (PyFloat x)
      with step [of x] show ?thesis by simp
    qed
    from first second show ?thesis by blast
  qed
  have nzd: "abduct t y \<noteq> Inl ZeroDivisionError"
    using res by auto
  have "int_valued d 1 \<or> int_valued d (- 1)"
    using d(2) unit by auto
  with div res nzd show ?thesis by blast
qed

theorem abduct_binary_no_zero_division_witness:
  "int_valued (PyFloat (Finite 1)) 1 \<and> ((1::int) = 0 \<or> (1::int) = 1)
   \<and> (\<exists>d. and_then (py_mul (PyInt 2) (PyFloat (Finite 1))) (\<lambda>m. py_sub m (PyInt 1)) = Inr d
              \<and> (int_valued d 1 \<or> int_valued d (- 1)))
   \<and> abduct (PyFloat (Finite 1)) (PyInt 5) \<noteq> Inl ZeroDivisionError
   \<and> \<bar>5::int\<bar> < 2 ^ 1023
   \<and> (\<exists>r. abduct (PyFloat (Finite 1)) (PyInt 5) = Inr (PyFloat r))"
proof -
  have iv: "int_valued (PyFloat (Finite 1)) 1" by (simp add: int_valued_def)
  have bd: "\<forall>n. PyInt 5 = PyInt n \<longrightarrow> \<bar>n\<bar> < 2 ^ 1023" by simp
  from abduct_binary_no_zero_division [OF iv, of "PyInt 5"] iv bd show ?thesis by simp
qed

section \<open>Properties of the samplers\<close>

lemma np_add_same_length:
  "length xs = length ys \<Longrightarrow> np_add xs ys = Inr (map2 (+) xs ys)"
  by (simp add: np_add_def)





text \<open>
  Claim C5. In the continuous scenario, intervening on B sets \<open>b\<close> to the next draw
  of \<open>SAMPLE_SIZE\<close> numbers from the generator, which moves on to its next state.
  The equation \<open>b = 5 a + u_1\<close> plays no part: the new \<open>b\<close> is the same whatever the
  arrays \<open>u_0\<close>, \<open>u_1\<close>, \<open>a\<close> and \<open>b\<close> held before, and \<open>u_1\<close> is left as it was.
\<close>

theorem intervene_on_B_fresh_draw:
  assumes "randn np (SAMPLE_SIZE env) (rng env) = (z, g')"
    and "length z = SAMPLE_SIZE env"
  shows "b_arr (intervene_on_B np env) = z
       \<and> length (b_arr (intervene_on_B np env)) = SAMPLE_SIZE env
       \<and> rng (intervene_on_B np env) = g'
       \<and> a_arr (intervene_on_B np env) = u_0 env
       \<and> u_1 (intervene_on_B np env) = u_1 env
       \<and> b_arr (intervene_on_B np (env\<lparr>u_0 := x0, u_1 := x1, a_arr := xa, b_arr := xb\<rparr>)) = z"
  using assms by (simp add: intervene_on_B_def)

theorem intervene_on_B_fresh_draw_witness:
  "randn tape_random (SAMPLE_SIZE \<lparr>SAMPLE_SIZE = 2, u_0 = [0.4, -1], u_1 = [0.3, -2],
       a_arr = [1.5, 1.5], b_arr = [7.8, 5.5], rng = [0.9, 0.2, 0.6]\<rparr>)
     (rng \<lparr>SAMPLE_SIZE = 2, u_0 = [0.4, -1], u_1 = [0.3, -2],
       a_arr = [1.5, 1.5], b_arr = [7.8, 5.5], rng = [0.9, 0.2, 0.6]\<rparr>) = ([0.9, 0.2], [0.6])
   \<and> intervene_on_B tape_random \<lparr>SAMPLE_SIZE = 2, u_0 = [0.4, -1], u_1 = [0.3, -2],
       a_arr = [1.5, 1.5], b_arr = [7.8, 5.5], rng = [0.9, 0.2, 0.6]\<rparr>
     = \<lparr>SAMPLE_SIZE = 2, u_0 = [0.4, -1], u_1 = [0.3, -2],
       a_arr = [0.4, -1], b_arr = [0.9, 0.2], rng = [0.6]\<rparr>"
proof -
  let ?env = "\<lparr>SAMPLE_SIZE = 2, u_0 = [0.4, -1], u_1 = [0.3, -2],
       a_arr = [1.5, 1.5], b_arr = [7.8, 5.5], rng = [0.9, 0.2, 0.6::real]\<rparr>"
  have d: "randn tape_random (SAMPLE_SIZE ?env) (rng ?env) = ([0.9, 0.2], [0.6])"
    by (simp add: tape_random_def tape_draw_def)
  have l: "length [0.9, 0.2::real] = SAMPLE_SIZE ?env" by simp
  from intervene_on_B_fresh_draw [OF d l] d show ?thesis
    by (simp add: intervene_on_B_def)
qed

text \<open>
  The cell of the continuous scenario reseeds the generator before it draws: its
  result is the same whatever state the generator was in, and it leaves \<open>u_1\<close> with
  \<open>SAMPLE_SIZE\<close> elements, as the intervention on A expects.
\<close>

lemma continuous_scenario_reseeded:
  "continuous_scenario np (env\<lparr>rng := g\<rparr>) = continuous_scenario np env"
  by (simp add: continuous_scenario_def Let_def split: prod.splits sum.splits)

lemma continuous_scenario_arrays:
  assumes "randn np 100 (seed np 42) = (z0, g1)" and "randn np 100 g1 = (z1, g2)"
    and "length z0 = 100" and "length z1 = 100"
  shows "continuous_scenario np env
     = (None, env\<lparr>SAMPLE_SIZE := 100, u_0 := z0, u_1 := z1, a_arr := z0,
               b_arr := map2 (+) (map (\<lambda>x. 5 * x) z0) z1, rng := g2\<rparr>)"
  using assms by (simp add: continuous_scenario_def np_add_same_length)

lemma continuous_scenario_lengths:
  assumes "randn np 100 (seed np 42) = (z0, g1)" and "randn np 100 g1 = (z1, g2)"
    and "length z0 = 100" and "length z1 = 100"
  shows "\<exists>env'. continuous_scenario np env = (None, env')
           \<and> length (u_1 env') = SAMPLE_SIZE env'"
  using continuous_scenario_arrays [OF assms, of env] assms by simp

text \<open>
  \<open>sample\<close>, in contrast, never reads \<open>random_seed\<close> and never reseeds: what it
  returns is fixed by the state of the process-wide generator alone.
\<close>

lemma sample_ignores_random_seed:
  "sample np (BookSCM_init s) n g = sample np (BookSCM_init s') n g"
  by (simp add: sample_def BookSCM_init_def)

text \<open>
  Claim C6. Reproducibility asks that two \<open>BookSCM\<close> instances constructed with
  the same \<open>random_seed\<close> return the same samples. Evaluated on two instances made
  with seed 42 and sampled one after the other, while the generator is about to hand
  out \<open>0.7, 0, 0.1, 0\<close>: the first returns \<open>([True], [True])\<close> and the second
  \<open>([False], [False])\<close>.
\<close>

theorem same_seed_different_samples:
  "sample tape_random (BookSCM_init (Some 42)) 1 [0.7, 0, 0.1, 0]
      = (Inr ([True], [True]), [0.1, 0])
   \<and> sample tape_random (BookSCM_init (Some 42)) 1 [0.1, 0]
      = (Inr ([False], [False]), [])"
  by (simp add: sample_def BookSCM_init_def tape_random_def tape_draw_def np_add_def Let_def)

end
